theory Spec2Isabelle
  imports Complex_Main
begin

section \<open>Numbers\<close>

text \<open>
  A JavaScript number is modelled as a finite real or one of the three special values.
  Arithmetic on finite values is exact: the rounding error and the overflow of IEEE doubles
  are outside the model, and zero carries no sign. What the model keeps is the part of the
  semantics the code's control flow depends on: a division by zero yields \<open>NaN\<close> or an
  infinity instead of failing, and every comparison with \<open>NaN\<close> is false.

  Stored coefficients, interval bounds and arguments are finite (type \<open>real\<close>); only the
  results of a division can be special.
\<close>

datatype number = Num real | PosInf | NegInf | NaN

text \<open>\<^verbatim>\<open>a / b\<close> on finite operands.\<close>

definition divide_number :: "real \<Rightarrow> real \<Rightarrow> number" where
  "divide_number a b =
     (if b \<noteq> 0 then Num (a / b)
      else if a = 0 then NaN
      else if 0 < a then PosInf
      else NegInf)"

text \<open>\<^verbatim>\<open>a - b\<close>, as the comparator of \<^verbatim>\<open>toSorted\<close> computes it.\<close>

fun minus_number :: "number \<Rightarrow> number \<Rightarrow> number" where
  "minus_number NaN b = NaN"
| "minus_number a NaN = NaN"
| "minus_number (Num a) (Num b) = Num (a - b)"
| "minus_number (Num a) PosInf = NegInf"
| "minus_number (Num a) NegInf = PosInf"
| "minus_number PosInf PosInf = NaN"
| "minus_number PosInf b = PosInf"
| "minus_number NegInf NegInf = NaN"
| "minus_number NegInf b = NegInf"

text \<open>The comparisons \<^verbatim>\<open>x > 0\<close>, \<^verbatim>\<open>x >= m\<close> and \<^verbatim>\<open>x <= m\<close>.\<close>

fun positive :: "number \<Rightarrow> bool" where
  "positive (Num a) = (0 < a)"
| "positive PosInf = True"
| "positive NegInf = False"
| "positive NaN = False"

fun number_ge :: "number \<Rightarrow> real \<Rightarrow> bool" where
  "number_ge (Num a) m = (m \<le> a)"
| "number_ge PosInf m = True"
| "number_ge NegInf m = False"
| "number_ge NaN m = False"

fun number_le :: "number \<Rightarrow> real \<Rightarrow> bool" where
  "number_le (Num a) m = (a \<le> m)"
| "number_le PosInf m = False"
| "number_le NegInf m = True"
| "number_le NaN m = False"

text \<open>
  \<^verbatim>\<open>Array.prototype.toSorted(compare)\<close> with the comparator \<^verbatim>\<open>(a, b) => a - b\<close>: a stable
  sort in which an element moves behind another only when the comparator is positive; a
  comparator value of \<open>NaN\<close> counts as zero and leaves the order as it is.
\<close>

fun insert_sorted :: "number \<Rightarrow> number list \<Rightarrow> number list" where
  "insert_sorted x [] = [x]"
| "insert_sorted x (y # ys) =
     (if positive (minus_number x y) then y # insert_sorted x ys else x # y # ys)"

fun toSorted :: "number list \<Rightarrow> number list" where
  "toSorted [] = []"
| "toSorted (x # xs) = insert_sorted x (toSorted xs)"

section \<open>Rounding and numeric utilities\<close>

definition PRECISION :: nat where
  "PRECISION = 12"

definition PRECISION_MAX :: nat where
  "PRECISION_MAX = 12"

text \<open>
  Modelled from the spec: \<^verbatim>\<open>round\<close> of \<^verbatim>\<open>util\<close> is not among the sources. It
  rounds a value to \<open>precision\<close> decimal digits, a half away from zero, and returns the
  input unchanged when the precision is \<open>PRECISION_MAX\<close>.
\<close>

definition round_util :: "real \<Rightarrow> nat \<Rightarrow> real" where
  "round_util v precision =
     (if precision = PRECISION_MAX then v
      else sgn v * of_int \<lfloor>\<bar>v\<bar> * 10 ^ precision + 1 / 2\<rfloor> / 10 ^ precision)"

text \<open>
  \<^verbatim>\<open>round\<close> applied to the result of a division: a value that is not finite has no
  decimal digits and stays as it is.
\<close>

fun round_number :: "number \<Rightarrow> nat \<Rightarrow> number" where
  "round_number (Num a) precision = Num (round_util a precision)"
| "round_number PosInf precision = PosInf"
| "round_number NegInf precision = NegInf"
| "round_number NaN precision = NaN"

text \<open>Modelled from the spec: \<^verbatim>\<open>minMax\<close> of \<^verbatim>\<open>util\<close>, the pair of the smaller and the
  larger of two numbers.\<close>

definition minMax :: "real \<Rightarrow> real \<Rightarrow> real \<times> real" where
  "minMax a b = (min a b, max a b)"

section \<open>Failures\<close>

text \<open>
  The code raises every failure through \<^verbatim>\<open>invariant\<close>, with a message; the
  constructors are the failure kinds, named after what the message reports.
\<close>

datatype error =
    InvalidInterval
  | InvalidChunking
  | InvalidInput
  | SingularMatrix
  | NonMonotonicAxis
  | RootUnsolvable

section \<open>Vectors\<close>

text \<open>
  Modelled from the spec: the module \<^verbatim>\<open>vector/vector4.internal\<close> is not among the
  sources. A vector holds four components, rounded to its precision when it is built;
  \<^verbatim>\<open>components\<close> lists them in order; \<^verbatim>\<open>dot\<close> is the sum of the products of the
  components, at the smaller of the two precisions.
\<close>

record Vector4 =
  v0 :: real
  v1 :: real
  v2 :: real
  v3 :: real
  precision :: nat

definition vector4 :: "real \<Rightarrow> real \<Rightarrow> real \<Rightarrow> real \<Rightarrow> nat \<Rightarrow> Vector4" where
  "vector4 a b c d prec =
     \<lparr>v0 = round_util a prec, v1 = round_util b prec, v2 = round_util c prec,
      v3 = round_util d prec, precision = prec\<rparr>"

definition components :: "Vector4 \<Rightarrow> real list" where
  "components v = [v0 v, v1 v, v2 v, v3 v]"

definition dot :: "Vector4 \<Rightarrow> Vector4 \<Rightarrow> real" where
  "dot a b =
     round_util (v0 a * v0 b + v1 a * v1 b + v2 a * v2 b + v3 a * v3 b)
       (min (Vector4.precision a) (Vector4.precision b))"

section \<open>Matrices\<close>

text \<open>
  Modelled from the spec: the module \<^verbatim>\<open>matrix/matrix3x3.internal\<close> is not among the
  sources. A 3x3 matrix holds nine row-major entries, rounded to its precision when it
  is built; its determinant is the determinant of the entries, rounded to the default
  precision.
\<close>

record Matrix3x3 =
  m00 :: real
  m01 :: real
  m02 :: real
  m10 :: real
  m11 :: real
  m12 :: real
  m20 :: real
  m21 :: real
  m22 :: real
  precision :: nat

definition make_matrix3x3 ::
  "real \<Rightarrow> real \<Rightarrow> real \<Rightarrow> real \<Rightarrow> real \<Rightarrow> real \<Rightarrow> real \<Rightarrow> real \<Rightarrow> real \<Rightarrow> nat \<Rightarrow> Matrix3x3"
where
  "make_matrix3x3 a00 a01 a02 a10 a11 a12 a20 a21 a22 prec =
     \<lparr>Matrix3x3.m00 = round_util a00 prec, m01 = round_util a01 prec,
      m02 = round_util a02 prec,
      m10 = round_util a10 prec, m11 = round_util a11 prec, m12 = round_util a12 prec,
      m20 = round_util a20 prec, m21 = round_util a21 prec, m22 = round_util a22 prec,
      precision = prec\<rparr>"

definition determinant_matrix3x3 :: "Matrix3x3 \<Rightarrow> real" where
  "determinant_matrix3x3 m =
     round_util
       (Matrix3x3.m00 m * (Matrix3x3.m11 m * Matrix3x3.m22 m - Matrix3x3.m12 m * Matrix3x3.m21 m)
        - Matrix3x3.m01 m * (Matrix3x3.m10 m * Matrix3x3.m22 m - Matrix3x3.m12 m * Matrix3x3.m20 m)
        + Matrix3x3.m02 m * (Matrix3x3.m10 m * Matrix3x3.m21 m - Matrix3x3.m11 m * Matrix3x3.m20 m))
       PRECISION"

text \<open>\<^verbatim>\<open>matrix/matrix4x4.internal.ts\<close>.\<close>

record Matrix4x4 =
  m00 :: real
  m01 :: real
  m02 :: real
  m03 :: real
  m10 :: real
  m11 :: real
  m12 :: real
  m13 :: real
  m20 :: real
  m21 :: real
  m22 :: real
  m23 :: real
  m30 :: real
  m31 :: real
  m32 :: real
  m33 :: real
  precision :: nat

text \<open>The constructor of \<^verbatim>\<open>Matrix4x4Impl\<close>, with all sixteen entries given.\<close>

definition Matrix4x4Impl ::
  "real \<Rightarrow> real \<Rightarrow> real \<Rightarrow> real \<Rightarrow> real \<Rightarrow> real \<Rightarrow> real \<Rightarrow> real \<Rightarrow>
   real \<Rightarrow> real \<Rightarrow> real \<Rightarrow> real \<Rightarrow> real \<Rightarrow> real \<Rightarrow> real \<Rightarrow> real \<Rightarrow> nat \<Rightarrow> Matrix4x4"
where
  "Matrix4x4Impl a00 a01 a02 a03 a10 a11 a12 a13 a20 a21 a22 a23 a30 a31 a32 a33 prec =
     \<lparr>m00 = round_util a00 prec, m01 = round_util a01 prec,
      m02 = round_util a02 prec, m03 = round_util a03 prec,
      m10 = round_util a10 prec, m11 = round_util a11 prec,
      m12 = round_util a12 prec, m13 = round_util a13 prec,
      m20 = round_util a20 prec, m21 = round_util a21 prec,
      m22 = round_util a22 prec, m23 = round_util a23 prec,
      m30 = round_util a30 prec, m31 = round_util a31 prec,
      m32 = round_util a32 prec, m33 = round_util a33 prec,
      precision = prec\<rparr>"

text \<open>
  \<^verbatim>\<open>isMatrix4x4\<close> takes a value of any type. The values of JavaScript, as far as
  \<^verbatim>\<open>typeof\<close> tells them apart; an object is the list of its fields.
\<close>

datatype js_value =
    Undefined
  | Null
  | Boolean bool
  | Number number
  | BigInt int
  | String string
  | Symbol string
  | Function string
  | Object "(string \<times> js_value) list"

fun typeof :: "js_value \<Rightarrow> string" where
  "typeof Undefined = ''undefined''"
| "typeof Null = ''object''"
| "typeof (Boolean b) = ''boolean''"
| "typeof (Number n) = ''number''"
| "typeof (BigInt n) = ''bigint''"
| "typeof (String s) = ''string''"
| "typeof (Symbol s) = ''symbol''"
| "typeof (Function f) = ''function''"
| "typeof (Object properties) = ''object''"

definition isMatrix4x4 :: "js_value \<Rightarrow> bool" where
  "isMatrix4x4 m = (typeof m = ''object'')"

text \<open>\<^verbatim>\<open>fromRows\<close>; the optional precision defaults to the smallest of the rows'.\<close>

definition fromRows ::
  "Vector4 \<Rightarrow> Vector4 \<Rightarrow> Vector4 \<Rightarrow> Vector4 \<Rightarrow> nat option \<Rightarrow> Matrix4x4"
where
  "fromRows r0 r1 r2 r3 prec =
     Matrix4x4Impl
       (v0 r0) (v1 r0) (v2 r0) (v3 r0)
       (v0 r1) (v1 r1) (v2 r1) (v3 r1)
       (v0 r2) (v1 r2) (v2 r2) (v3 r2)
       (v0 r3) (v1 r3) (v2 r3) (v3 r3)
       (case prec of
          Some n \<Rightarrow> n
        | None \<Rightarrow>
            min (min (Vector4.precision r0) (Vector4.precision r1))
                (min (Vector4.precision r2) (Vector4.precision r3)))"

definition toRows :: "Matrix4x4 \<Rightarrow> Vector4 list" where
  "toRows m =
     [vector4 (m00 m) (m01 m) (m02 m) (m03 m) (Matrix4x4.precision m),
      vector4 (m10 m) (m11 m) (m12 m) (m13 m) (Matrix4x4.precision m),
      vector4 (m20 m) (m21 m) (m22 m) (m23 m) (Matrix4x4.precision m),
      vector4 (m30 m) (m31 m) (m32 m) (m33 m) (Matrix4x4.precision m)]"

definition toColumns :: "Matrix4x4 \<Rightarrow> Vector4 list" where
  "toColumns m =
     [vector4 (m00 m) (m10 m) (m20 m) (m30 m) (Matrix4x4.precision m),
      vector4 (m01 m) (m11 m) (m21 m) (m31 m) (Matrix4x4.precision m),
      vector4 (m02 m) (m12 m) (m22 m) (m32 m) (Matrix4x4.precision m),
      vector4 (m03 m) (m13 m) (m23 m) (m33 m) (Matrix4x4.precision m)]"

text \<open>The type \<^verbatim>\<open>Matrix4x4Coordinate\<close> is \<^verbatim>\<open>0 | 1 | 2 | 3\<close>.\<close>

datatype Matrix4x4Coordinate = Coord0 | Coord1 | Coord2 | Coord3

fun index :: "Matrix4x4Coordinate \<Rightarrow> nat" where
  "index Coord0 = 0"
| "index Coord1 = 1"
| "index Coord2 = 2"
| "index Coord3 = 3"

text \<open>\<^verbatim>\<open>xs.toSpliced(i, 1)\<close>: the array without its element at index \<open>i\<close>.\<close>

definition toSpliced :: "'a list \<Rightarrow> nat \<Rightarrow> 'a list" where
  "toSpliced xs i = take i xs @ drop (Suc i) xs"

text \<open>
  \<^verbatim>\<open>setRow\<close>: \<^verbatim>\<open>toRows(m).with(row, v)\<close> is the four rows with the one at \<open>row\<close>
  replaced, and \<^verbatim>\<open>fromRows\<close> receives them spread, without a precision.
\<close>

definition setRow :: "Matrix4x4 \<Rightarrow> Matrix4x4Coordinate \<Rightarrow> Vector4 \<Rightarrow> Matrix4x4" where
  "setRow m row v =
     (let rows = (toRows m)[index row := v]
      in fromRows (rows ! 0) (rows ! 1) (rows ! 2) (rows ! 3) None)"

text \<open>
  \<^verbatim>\<open>minor\<close>: the columns of \<open>m\<close> without the one at index \<open>row\<close>, each without its
  component at index \<open>column\<close>, laid out as the rows of a 3x3 matrix.
\<close>

definition minor :: "Matrix4x4 \<Rightarrow> Matrix4x4Coordinate \<Rightarrow> Matrix4x4Coordinate \<Rightarrow> Matrix3x3" where
  "minor m row column =
     (let vs = toSpliced (toColumns m) (index row);
          a = toSpliced (components (vs ! 0)) (index column);
          b = toSpliced (components (vs ! 1)) (index column);
          c = toSpliced (components (vs ! 2)) (index column)
      in make_matrix3x3 (a ! 0) (a ! 1) (a ! 2) (b ! 0) (b ! 1) (b ! 2) (c ! 0) (c ! 1) (c ! 2)
           (Matrix4x4.precision m))"

definition determinant :: "Matrix4x4 \<Rightarrow> real" where
  "determinant m =
     round_util
       (m00 m * determinant_matrix3x3 (minor m Coord0 Coord0)
        - m01 m * determinant_matrix3x3 (minor m Coord0 Coord1)
        + m02 m * determinant_matrix3x3 (minor m Coord0 Coord2)
        - m03 m * determinant_matrix3x3 (minor m Coord0 Coord3))
       PRECISION"

definition vectorProductLeft :: "Matrix4x4 \<Rightarrow> Vector4 \<Rightarrow> Vector4" where
  "vectorProductLeft m v =
     (let rows = toRows m
      in vector4 (dot (rows ! 0) v) (dot (rows ! 1) v) (dot (rows ! 2) v) (dot (rows ! 3) v)
           (min (Matrix4x4.precision m) (Vector4.precision v)))"

text \<open>
  \<^verbatim>\<open>solveSystem\<close>: the invariant lets only a finite \<open>1 / determinant(m)\<close> through
  (\<^verbatim>\<open>Number.isFinite\<close> holds of the values \<open>Num x\<close> and of no other); the result vector
  is built at the default precision.
\<close>

definition solveSystem :: "Matrix4x4 \<Rightarrow> Vector4 \<Rightarrow> error + Vector4" where
  "solveSystem m v =
     (case divide_number 1 (determinant m) of
        Num inverseDeterminant \<Rightarrow>
          Inr (vector4
                 (determinant (setRow m Coord0 v) * inverseDeterminant)
                 (determinant (setRow m Coord1 v) * inverseDeterminant)
                 (determinant (setRow m Coord2 v) * inverseDeterminant)
                 (determinant (setRow m Coord3 v) * inverseDeterminant)
                 PRECISION)
      | _ \<Rightarrow> Inl SingularMatrix)"

section \<open>Intervals\<close>

text \<open>
  Modelled from the spec: the module \<^verbatim>\<open>interval\<close> is not among the sources. An interval
  has a start, an end and a precision; its size is \<open>end - start\<close>; \<^verbatim>\<open>contains\<close> takes two
  flags that say whether each endpoint belongs to the interval.
\<close>

record Interval =
  start :: real
  "end" :: real
  precision :: nat

definition size_interval :: "Interval \<Rightarrow> real" where
  "size_interval i = Interval.end i - Interval.start i"

definition contains :: "Interval \<Rightarrow> real \<Rightarrow> bool \<Rightarrow> bool \<Rightarrow> bool" where
  "contains i x includeStart includeEnd =
     ((if includeStart then Interval.start i \<le> x else Interval.start i < x) \<and>
      (if includeEnd then x \<le> Interval.end i else x < Interval.end i))"

section \<open>Monotonicity\<close>

datatype Monotonicity = Increasing | Decreasing | Constant | MNone

text \<open>
  Modelled from the spec: \<^verbatim>\<open>guaranteedMonotonicityFromComparison\<close> of
  \<^verbatim>\<open>polynomial/monotonicity\<close> is not among the sources. Given the values at the start
  and at the end, it answers increasing when the end value is larger, decreasing when it is
  smaller and constant when both are equal.
\<close>

definition guaranteedMonotonicityFromComparison :: "real \<Rightarrow> real \<Rightarrow> Monotonicity" where
  "guaranteedMonotonicityFromComparison ys ye =
     (if ys < ye then Increasing else if ye < ys then Decreasing else Constant)"

section \<open>Spline characteristic matrices\<close>

text \<open>
  Modelled from the spec: the generator \<^verbatim>\<open>cardinal\<close> of \<^verbatim>\<open>splines\<close> is not among the
  sources. The characteristic matrix of the Cardinal(a) family has four rows, which are
  the coefficients \<open>c0\<close> to \<open>c3\<close> of the resulting cubic in terms of the four controls:
  \<open>[0, 1, 0, 0]\<close>, \<open>[-a, 0, a, 0]\<close>, \<open>[2a, a-3, 3-2a, -a]\<close> and \<open>[-a, 2-a, a-2, a]\<close>.
\<close>

definition cardinal :: "real \<Rightarrow> real list list" where
  "cardinal a =
     [[0, 1, 0, 0],
      [- a, 0, a, 0],
      [2 * a, a - 3, 3 - 2 * a, - a],
      [- a, 2 - a, a - 2, a]]"

text \<open>
  Modelled from the spec: the coefficient vector of a segment is the product of the
  characteristic matrix with the vector of the four controls, one coefficient for each
  row.
\<close>

definition coefficients :: "real list list \<Rightarrow> real list \<Rightarrow> real list" where
  "coefficients m controls = map (\<lambda>row. sum_list (map2 (*) row controls)) m"

section \<open>Segment chunking\<close>

text \<open>
  Modelled from the spec: \<^verbatim>\<open>toCubicScalars\<close> and \<^verbatim>\<open>toBezierSegments\<close> of
  \<^verbatim>\<open>splines\<close> are not among the sources. A sequence is cut into overlapping windows of
  length 4 whose starts advance by the stride; the sequence must have at least 4 elements,
  the stride must be 1, 2 or 3, and \<open>length - 4\<close> must be a multiple of the stride,
  otherwise the call fails. Bezier segments are the windows of stride 3.

  \<open>windows seq stride i\<close> is the list of the windows that start at index \<open>i\<close> or later;
  it is called with a stride that has passed the check, and yields nothing for stride 0.
\<close>

function windows :: "'a list \<Rightarrow> nat \<Rightarrow> nat \<Rightarrow> 'a list list" where
  "windows seq stride i =
     (if stride = 0 \<or> length seq < i + 4 then []
      else take 4 (drop i seq) # windows seq stride (i + stride))"
  by pat_completeness auto
termination
  by (relation "measure (\<lambda>(seq, stride, i). length seq - i)") auto

declare windows.simps [simp del]

definition toCubicScalars :: "'a list \<Rightarrow> nat \<Rightarrow> error + 'a list list" where
  "toCubicScalars seq stride =
     (if length seq < 4 \<or> stride \<notin> {1, 2, 3} \<or> (length seq - 4) mod stride \<noteq> 0
      then Inl InvalidChunking
      else Inr (windows seq stride 0))"

definition toBezierSegments :: "'a list \<Rightarrow> error + 'a list list" where
  "toBezierSegments seq = toCubicScalars seq 3"

section \<open>Curves\<close>

text \<open>
  \<^verbatim>\<open>curve.ts\<close>. The module \<^verbatim>\<open>axis\<close> is not among the sources: an axis is taken as it
  is given, with the four members \<^verbatim>\<open>solveWhere\<close> uses. A curve is the state its
  closures share: the axis keys in order and the axis of each key (the type
  \<^verbatim>\<open>Record<Axis, CurveAxis>\<close> has an axis for every key). A point is a map from keys to
  numbers.
\<close>

record CurveAxis =
  monotonicity :: Monotonicity
  domain :: Interval
  solveT :: "number \<Rightarrow> Interval \<Rightarrow> number list"
  solvePosition :: "number \<Rightarrow> number"

record 'k Curve =
  axisKeys :: "'k list"
  axes :: "'k \<Rightarrow> CurveAxis"

text \<open>
  \<^verbatim>\<open>solveWhere\<close>: the first invariant fails on an axis that is not monotonic; \<open>t\<close> is
  the first element of what \<^verbatim>\<open>solveT\<close> returns, and the second invariant fails when there
  is none.
\<close>

definition solveWhere :: "'k Curve \<Rightarrow> 'k \<Rightarrow> number \<Rightarrow> nat \<Rightarrow> error + ('k \<rightharpoonup> number)" where
  "solveWhere c axis position prec =
     (let curveAxis = axes c axis in
      if CurveAxis.monotonicity curveAxis = MNone then Inl NonMonotonicAxis
      else
        case solveT curveAxis position (domain curveAxis) of
          [] \<Rightarrow> Inl RootUnsolvable
        | t # ts \<Rightarrow>
            Inr (fold
                   (\<lambda>key result.
                      if key \<noteq> axis
                      then result(key \<mapsto> round_number (solvePosition (axes c key) t) prec)
                      else result)
                   (axisKeys c)
                   [axis \<mapsto> round_number position prec]))"

section \<open>Linear polynomials\<close>

text \<open>
  Modelled from the spec: the module \<^verbatim>\<open>polynomial/linear.internal\<close> is not among the
  sources. The constructor rounds the coefficients to the precision; \<^verbatim>\<open>solveInverse\<close>
  answers the rounded root \<open>(y - c0) / c1\<close>, or \<^verbatim>\<open>null\<close> when \<open>c1\<close> is zero;
  \<^verbatim>\<open>monotonicity\<close> reads the sign of \<open>c1\<close>.
\<close>

record LinearPolynomial =
  c0 :: real
  c1 :: real
  precision :: nat

definition make_linear :: "real \<Rightarrow> real \<Rightarrow> nat \<Rightarrow> LinearPolynomial" where
  "make_linear a b prec =
     \<lparr>LinearPolynomial.c0 = round_util a prec, c1 = round_util b prec, precision = prec\<rparr>"

definition solveInverse_linear :: "LinearPolynomial \<Rightarrow> real \<Rightarrow> real option" where
  "solveInverse_linear p y =
     (if LinearPolynomial.c1 p = 0 then None
      else Some (round_util ((y - LinearPolynomial.c0 p) / LinearPolynomial.c1 p)
                   (LinearPolynomial.precision p)))"

definition monotonicity_linear :: "LinearPolynomial \<Rightarrow> Monotonicity" where
  "monotonicity_linear p =
     (if 0 < LinearPolynomial.c1 p then Increasing
      else if LinearPolynomial.c1 p < 0 then Decreasing
      else Constant)"

section \<open>Quadratic polynomials\<close>

text \<open>
  \<^verbatim>\<open>polynomial/quadratic.internal.ts\<close>. The functions wrapped in \<^verbatim>\<open>dual\<close> are modelled
  in their direct form \<^verbatim>\<open>f(p, x)\<close>.
\<close>

record QuadraticPolynomial =
  c0 :: real
  c1 :: real
  c2 :: real
  precision :: nat

text \<open>Modelled from the spec: the class \<^verbatim>\<open>QuadraticPolynomialImpl\<close> is not among the
  sources; its constructor rounds each coefficient to the precision.\<close>

definition make :: "real \<Rightarrow> real \<Rightarrow> real \<Rightarrow> nat \<Rightarrow> QuadraticPolynomial" where
  "make a b c prec =
     \<lparr>c0 = round_util a prec, c1 = round_util b prec, c2 = round_util c prec,
      precision = prec\<rparr>"

text \<open>The invariant the constructor establishes: every coefficient is already rounded.\<close>

definition rounded :: "QuadraticPolynomial \<Rightarrow> bool" where
  "rounded p =
     (round_util (c0 p) (precision p) = c0 p \<and>
      round_util (c1 p) (precision p) = c1 p \<and>
      round_util (c2 p) (precision p) = c2 p)"

definition solve :: "QuadraticPolynomial \<Rightarrow> real \<Rightarrow> real" where
  "solve p x = round_util (c0 p + x * c1 p + x ^ 2 * c2 p) (precision p)"

definition solveInverse :: "QuadraticPolynomial \<Rightarrow> real \<Rightarrow> number list" where
  "solveInverse p y =
     (let discriminant = c1 p ^ 2 - 4 * c2 p * (c0 p - y) in
      if discriminant < 0 then []
      else if discriminant = 0 then
        [round_number (divide_number (- c1 p) (2 * c2 p)) (precision p)]
      else
        let sqrtDiscriminant = sqrt discriminant in
        toSorted
          [round_number (divide_number (- c1 p + sqrtDiscriminant) (2 * c2 p)) (precision p),
           round_number (divide_number (- c1 p - sqrtDiscriminant) (2 * c2 p)) (precision p)])"

definition derivative :: "QuadraticPolynomial \<Rightarrow> LinearPolynomial" where
  "derivative p = make_linear (c1 p) (c2 p * 2) (precision p)"

definition roots :: "QuadraticPolynomial \<Rightarrow> Interval option \<Rightarrow> number list" where
  "roots p interval =
     (let rs = solveInverse p 0 in
      case interval of
        None \<Rightarrow> rs
      | Some i \<Rightarrow>
          (case minMax (Interval.start i) (Interval.end i) of
             (mn, mx) \<Rightarrow> filter (\<lambda>root. number_ge root mn \<and> number_le root mx) rs))"

text \<open>
  \<^verbatim>\<open>derivative(p).pipe(Linear.solveInverse(0)) ?? (p.c2 === 0 ? null : 0)\<close>; \<open>None\<close> is
  \<^verbatim>\<open>null\<close>.
\<close>

definition extreme :: "QuadraticPolynomial \<Rightarrow> real option" where
  "extreme p =
     (case solveInverse_linear (derivative p) 0 of
        Some r \<Rightarrow> Some r
      | None \<Rightarrow> (if c2 p = 0 then None else Some 0))"

text \<open>
  \<^verbatim>\<open>extreme(p) as number\<close> is a cast without a check; a \<^verbatim>\<open>null\<close> that reached the
  comparisons of \<^verbatim>\<open>contains\<close> would be read as zero.
\<close>

definition monotonicity :: "QuadraticPolynomial \<Rightarrow> Interval option \<Rightarrow> Monotonicity" where
  "monotonicity p i =
     (if c2 p = 0 \<and> c1 p = 0 then Constant
      else if c2 p = 0 then monotonicity_linear (make_linear (c0 p) (c1 p) (precision p))
      else
        let e = (case extreme p of Some r \<Rightarrow> r | None \<Rightarrow> 0) in
        case i of
          None \<Rightarrow> MNone
        | Some iv \<Rightarrow>
            if size_interval iv = 0 then Constant
            else if contains iv e False False then MNone
            else guaranteedMonotonicityFromComparison
                   (solve p (Interval.start iv)) (solve p (Interval.end iv)))"

section \<open>Properties of rounding\<close>

lemma round_util_zero: "round_util 0 p = 0"
  by (simp add: round_util_def)

lemma round_util_default: "round_util x 12 = x"
  by (simp add: round_util_def PRECISION_MAX_def)

text \<open>A multiple of \<open>10\<^sup>-\<^sup>p\<close> is its own rounding to \<open>p\<close> digits, and every rounding to
  \<open>p\<close> digits is such a multiple.\<close>

lemma round_util_of_int_div:
  "round_util (of_int k / 10 ^ p) p = of_int k / 10 ^ p"
proof (cases "p = PRECISION_MAX")
  case True
  then show ?thesis by (simp add: round_util_def)
next
  case False
  have "\<bar>of_int k / (10::real) ^ p\<bar> * 10 ^ p = of_int \<bar>k\<bar>"
    by (simp add: abs_mult)
  then have fl: "\<lfloor>\<bar>of_int k / (10::real) ^ p\<bar> * 10 ^ p + 1 / 2\<rfloor> = \<bar>k\<bar>"
    by (simp add: floor_unique)
  consider "k < 0" | "k = 0" | "0 < k" by linarith
  then show ?thesis
  proof cases
    case 1
    then have "sgn (of_int k / (10::real) ^ p) = - 1"
      by (simp add: sgn_divide)
    with 1 False fl show ?thesis
      by (simp add: round_util_def)
  next
    case 2
    then show ?thesis by (simp add: round_util_zero)
  next
    case 3
    then have "sgn (of_int k / (10::real) ^ p) = 1"
      by (simp add: sgn_divide)
    with 3 False fl show ?thesis
      by (simp add: round_util_def)
  qed
qed

lemma round_util_is_multiple:
  assumes "p \<noteq> PRECISION_MAX"
  shows "\<exists>k. round_util x p = of_int k / 10 ^ p"
proof -
  define m where "m = \<lfloor>\<bar>x\<bar> * 10 ^ p + 1 / 2\<rfloor>"
  have r: "round_util x p = sgn x * of_int m / 10 ^ p"
    using assms by (simp add: round_util_def m_def)
  consider "x < 0" | "x = 0" | "0 < x" by linarith
  then show ?thesis
  proof cases
    case 1
    then have "round_util x p = of_int (- m) / 10 ^ p" using r by simp
    then show ?thesis by blast
  next
    case 2
    then have "round_util x p = of_int 0 / 10 ^ p" by (simp add: round_util_zero)
    then show ?thesis by blast
  next
    case 3
    then have "round_util x p = of_int m / 10 ^ p" using r by simp
    then show ?thesis by blast
  qed
qed

lemma round_util_idem: "round_util (round_util x p) p = round_util x p"
proof (cases "p = PRECISION_MAX")
  case True
  then show ?thesis by (simp add: round_util_def)
next
  case False
  then show ?thesis
    using round_util_is_multiple [of p x] round_util_of_int_div by metis
qed

lemma round_util_double:
  assumes "round_util x p = x"
  shows "round_util (x * 2) p = x * 2"
proof (cases "p = PRECISION_MAX")
  case True
  then show ?thesis by (simp add: round_util_def)
next
  case False
  then obtain k where k: "x = of_int k / 10 ^ p"
    using round_util_is_multiple [of p x] assms by auto
  have "x * 2 = of_int (k * 2) / 10 ^ p"
    by (simp add: k)
  then show ?thesis
    using round_util_of_int_div [of "k * 2" p] by simp
qed

text \<open>The constructor establishes the invariant.\<close>

lemma rounded_make: "rounded (make a b c prec)"
  by (simp add: rounded_def make_def round_util_idem)

section \<open>Properties of the quadratic inverse\<close>

lemma toSorted_pair:
  "toSorted [a, b] = (if positive (minus_number a b) then [b, a] else [a, b])"
  by simp

lemma toSorted_Num_pair:
  "toSorted [Num a, Num b] = [Num (min a b), Num (max a b)]"
  by (auto simp: min_def max_def)

text \<open>
  C1. The claim is that a quadratic with \<open>c2 = 0\<close> is inverted like the linear polynomial
  \<open>c0 + c1 x\<close>. The code has no such delegation: with \<open>c2 = 0\<close> every quotient divides by
  zero, and what comes back is \<open>[NaN]\<close> when \<open>c1 = 0\<close>, \<open>[NaN, -Infinity]\<close> when \<open>c1\<close> is
  positive and \<open>[Infinity, NaN]\<close> when \<open>c1\<close> is negative, never the root \<open>(y - c0) / c1\<close>
  and never the empty sequence.
\<close>

theorem solveInverse_c2_zero:
  assumes "c2 p = 0"
  shows "solveInverse p y =
           (if c1 p = 0 then [NaN]
            else if 0 < c1 p then [NaN, NegInf]
            else [PosInf, NaN])"
proof (cases "c1 p = 0")
  case True
  then show ?thesis
    using assms by (simp add: solveInverse_def divide_number_def)
next
  case False
  then have pos: "0 < c1 p ^ 2" by simp
  show ?thesis
    using False assms pos
    by (simp add: solveInverse_def Let_def divide_number_def)
qed

theorem solveInverse_c2_zero_witness:
  "c2 \<lparr>c0 = 0, c1 = 1, c2 = 0, precision = 12\<rparr> = 0 \<and>
   solveInverse \<lparr>c0 = 0, c1 = 1, c2 = 0, precision = 12\<rparr> 0 = [NaN, NegInf]"
  using solveInverse_c2_zero [of "\<lparr>c0 = 0, c1 = 1, c2 = 0, precision = 12\<rparr>" 0]
  by simp

text \<open>With a leading coefficient every root is finite, and the roots come in ascending
  order.\<close>

lemma solveInverse_finite_sorted:
  assumes "c2 p \<noteq> 0"
  shows "\<exists>xs. solveInverse p y = map Num xs \<and> sorted xs"
proof -
  let ?D = "c1 p ^ 2 - 4 * c2 p * (c0 p - y)"
  let ?r1 = "round_util ((- c1 p + sqrt ?D) / (2 * c2 p)) (precision p)"
  let ?r2 = "round_util ((- c1 p - sqrt ?D) / (2 * c2 p)) (precision p)"
  consider "?D < 0" | "?D = 0" | "0 < ?D" by linarith
  then show ?thesis
  proof cases
    case 1
    then have "solveInverse p y = map Num []"
      by (simp add: solveInverse_def)
    then show ?thesis by (metis sorted_wrt.simps(1))
  next
    case 2
    then have "solveInverse p y = map Num [round_util (- c1 p / (2 * c2 p)) (precision p)]"
      using assms by (simp add: solveInverse_def divide_number_def)
    then show ?thesis by (metis sorted1)
  next
    case 3
    then have "solveInverse p y = map Num [min ?r1 ?r2, max ?r1 ?r2]"
      using assms
      by (simp add: solveInverse_def Let_def divide_number_def toSorted_Num_pair
            del: toSorted.simps)
    moreover have "sorted [min ?r1 ?r2, max ?r1 ?r2]" by simp
    ultimately show ?thesis by blast
  qed
qed

text \<open>The three inverse tests of \<^verbatim>\<open>polynomial.spec.ts\<close> on \<open>x + 2x\<^sup>2\<close>.\<close>

lemma solveInverse_example:
  "solveInverse \<lparr>c0 = 0, c1 = 1, c2 = 2, precision = 12\<rparr> 0 = [Num (- (1 / 2)), Num 0]"
  by (simp add: solveInverse_def divide_number_def round_util_default)

lemma solveInverse_example_double_root:
  "solveInverse \<lparr>c0 = 0, c1 = 1, c2 = 2, precision = 12\<rparr> (- (1 / 8)) = [Num (- (1 / 4))]"
  by (simp add: solveInverse_def divide_number_def round_util_default)

lemma solveInverse_example_no_root:
  "solveInverse \<lparr>c0 = 0, c1 = 1, c2 = 2, precision = 12\<rparr> (- (1 / 2)) = []"
  by (simp add: solveInverse_def)

text \<open>
  C2, as amended. For a quadratic with \<open>c2 \<noteq> 0\<close> and the discriminant
  \<open>D = c1\<^sup>2 - 4 c2 (c0 - y)\<close>, \<^verbatim>\<open>solveInverse\<close> returns the empty sequence when \<open>D < 0\<close>,
  the single root \<open>- c1 / (2 c2)\<close> rounded to the precision when \<open>D = 0\<close>, and when
  \<open>D > 0\<close> the two roots \<open>(- c1 \<plusminus> \<surd>D) / (2 c2)\<close>, each rounded to the precision, the
  smaller first. The order is ascending but not always strictly so: the two rounded roots
  can be the same number.
\<close>

theorem solveInverse_c2_nonzero:
  assumes "c2 p \<noteq> 0"
  shows "solveInverse p y =
     (let D = c1 p ^ 2 - 4 * c2 p * (c0 p - y);
          r1 = round_util ((- c1 p + sqrt D) / (2 * c2 p)) (precision p);
          r2 = round_util ((- c1 p - sqrt D) / (2 * c2 p)) (precision p)
      in if D < 0 then []
         else if D = 0 then [Num (round_util (- c1 p / (2 * c2 p)) (precision p))]
         else [Num (min r1 r2), Num (max r1 r2)])"
  using assms
  by (simp add: solveInverse_def Let_def divide_number_def toSorted_Num_pair
        del: toSorted.simps)

theorem solveInverse_c2_nonzero_witness:
  "c2 \<lparr>c0 = 0, c1 = 1, c2 = 2, precision = 12\<rparr> \<noteq> 0 \<and>
   solveInverse \<lparr>c0 = 0, c1 = 1, c2 = 2, precision = 12\<rparr> 0 = [Num (- (1 / 2)), Num 0]"
  using solveInverse_c2_nonzero [of "\<lparr>c0 = 0, c1 = 1, c2 = 2, precision = 12\<rparr>" 0]
  by (simp add: round_util_default)

text \<open>
  The claim as it was stated asks for a strictly ascending pair. At precision 0 the
  polynomial \<open>100 x\<^sup>2\<close> and \<open>y = 1\<close> have \<open>D = 400\<close> and the roots \<open>0.1\<close> and \<open>-0.1\<close>, which
  both round to \<open>0\<close>.
\<close>

theorem solveInverse_not_strictly_ascending:
  "c2 \<lparr>c0 = 0, c1 = 0, c2 = 100, precision = 0\<rparr> \<noteq> 0 \<and>
   c1 \<lparr>c0 = 0, c1 = 0, c2 = 100, precision = 0\<rparr> ^ 2
     - 4 * c2 \<lparr>c0 = 0, c1 = 0, c2 = 100, precision = 0\<rparr>
         * (c0 \<lparr>c0 = 0, c1 = 0, c2 = 100, precision = 0\<rparr> - 1) = 400 \<and>
   solveInverse \<lparr>c0 = 0, c1 = 0, c2 = 100, precision = 0\<rparr> 1 = [Num 0, Num 0]"
  by (simp add: solveInverse_def divide_number_def round_util_def PRECISION_MAX_def)

section \<open>Roots in an interval\<close>

lemma filter_map_Num:
  "filter P (map Num xs) = map Num (filter (\<lambda>x. P (Num x)) xs)"
  by (induction xs) simp_all

text \<open>
  C10. Without an interval, \<^verbatim>\<open>roots\<close> is \<^verbatim>\<open>solveInverse(p, 0)\<close>. With an interval it is
  that sequence, filtered to the roots between the smaller and the larger of the two
  endpoints, both included; the roots kept stay in their order, which is ascending when
  \<open>c2 \<noteq> 0\<close>.
\<close>

theorem roots_spec:
  "roots p None = solveInverse p 0 \<and>
   roots p (Some i) =
     filter (\<lambda>r. number_ge r (min (Interval.start i) (Interval.end i)) \<and>
                 number_le r (max (Interval.start i) (Interval.end i)))
       (solveInverse p 0) \<and>
   (c2 p \<noteq> 0 \<longrightarrow>
      (\<exists>xs. roots p (Some i) = map Num xs \<and> sorted xs \<and>
            (\<forall>x. x \<in> set xs \<longleftrightarrow>
               Num x \<in> set (solveInverse p 0) \<and>
               min (Interval.start i) (Interval.end i) \<le> x \<and>
               x \<le> max (Interval.start i) (Interval.end i))))"
proof (intro conjI impI)
  show "roots p None = solveInverse p 0"
    by (simp add: roots_def)
  show f: "roots p (Some i) =
     filter (\<lambda>r. number_ge r (min (Interval.start i) (Interval.end i)) \<and>
                 number_le r (max (Interval.start i) (Interval.end i)))
       (solveInverse p 0)"
    by (simp add: roots_def minMax_def)
  assume "c2 p \<noteq> 0"
  then obtain ys where ys: "solveInverse p 0 = map Num ys" "sorted ys"
    using solveInverse_finite_sorted by blast
  let ?mn = "min (Interval.start i) (Interval.end i)"
  let ?mx = "max (Interval.start i) (Interval.end i)"
  let ?xs = "filter (\<lambda>x. ?mn \<le> x \<and> x \<le> ?mx) ys"
  have "roots p (Some i) = map Num ?xs"
    by (simp add: f ys filter_map_Num)
  moreover have "sorted ?xs"
    using ys(2) by (rule sorted_wrt_filter)
  moreover have "\<forall>x. x \<in> set ?xs \<longleftrightarrow>
      Num x \<in> set (solveInverse p 0) \<and> ?mn \<le> x \<and> x \<le> ?mx"
    by (auto simp: ys)
  ultimately show "\<exists>xs. roots p (Some i) = map Num xs \<and> sorted xs \<and>
            (\<forall>x. x \<in> set xs \<longleftrightarrow>
               Num x \<in> set (solveInverse p 0) \<and> ?mn \<le> x \<and> x \<le> ?mx)"
    by blast
qed

theorem roots_spec_witness:
  "roots \<lparr>c0 = 0, c1 = 1, c2 = 2, precision = 12\<rparr> None = [Num (- (1 / 2)), Num 0] \<and>
   roots \<lparr>c0 = 0, c1 = 1, c2 = 2, precision = 12\<rparr>
     (Some \<lparr>start = - (1 / 2), end = - (1 / 4), precision = 12\<rparr>) = [Num (- (1 / 2))] \<and>
   roots \<lparr>c0 = 0, c1 = 1, c2 = 2, precision = 12\<rparr>
     (Some \<lparr>start = 0, end = 1, precision = 12\<rparr>) = [Num 0]"
  using roots_spec [of "\<lparr>c0 = 0, c1 = 1, c2 = 2, precision = 12\<rparr>"
      "\<lparr>start = - (1 / 2), end = - (1 / 4), precision = 12\<rparr>"]
    roots_spec [of "\<lparr>c0 = 0, c1 = 1, c2 = 2, precision = 12\<rparr>"
      "\<lparr>start = 0, end = 1, precision = 12\<rparr>"]
  by (simp add: solveInverse_example)

section \<open>The extreme of a quadratic\<close>

lemma extreme_defined:
  "c2 p \<noteq> 0 \<Longrightarrow> \<exists>e. extreme p = Some e"
  by (simp add: extreme_def split: option.splits)

lemma extreme_example:
  "extreme \<lparr>c0 = 0, c1 = 1, c2 = 2, precision = 12\<rparr> = Some (- (1 / 4))"
  by (simp add: extreme_def derivative_def make_linear_def solveInverse_linear_def
        round_util_default)

lemma extreme_example_square:
  "extreme \<lparr>c0 = 0, c1 = 0, c2 = 1, precision = 0\<rparr> = Some 0"
  by (simp add: extreme_def derivative_def make_linear_def solveInverse_linear_def
        round_util_def PRECISION_MAX_def)

text \<open>
  C3, as amended. For a quadratic whose coefficients are rounded to its precision, as the
  constructor leaves them, \<^verbatim>\<open>extreme\<close> is the root of the derivative, \<open>- c1 / (2 c2)\<close>
  rounded to the precision, when \<open>c2 \<noteq> 0\<close>. When \<open>c2 = 0\<close> it is \<^verbatim>\<open>null\<close>, whether
  \<open>c1\<close> is zero or not.
\<close>

theorem extreme_cases:
  "(c2 p \<noteq> 0 \<and> rounded p \<longrightarrow>
      solveInverse_linear (derivative p) 0 =
        Some (round_util (- c1 p / (2 * c2 p)) (precision p)) \<and>
      extreme p = Some (round_util (- c1 p / (2 * c2 p)) (precision p))) \<and>
   (c2 p = 0 \<longrightarrow> extreme p = None)"
proof (intro conjI impI)
  assume a: "c2 p \<noteq> 0 \<and> rounded p"
  then have d: "round_util (c2 p * 2) (precision p) = c2 p * 2"
    and c: "round_util (c1 p) (precision p) = c1 p"
    by (simp_all add: rounded_def round_util_double)
  from a d c show "solveInverse_linear (derivative p) 0 =
      Some (round_util (- c1 p / (2 * c2 p)) (precision p))"
    by (simp add: derivative_def make_linear_def solveInverse_linear_def mult.commute)
  from a d c show "extreme p = Some (round_util (- c1 p / (2 * c2 p)) (precision p))"
    by (simp add: extreme_def derivative_def make_linear_def solveInverse_linear_def
          mult.commute)
next
  assume "c2 p = 0"
  then show "extreme p = None"
    by (simp add: extreme_def derivative_def make_linear_def solveInverse_linear_def
          round_util_zero)
qed

theorem extreme_cases_witness:
  "(c2 \<lparr>c0 = 0, c1 = 1, c2 = 2, precision = 12\<rparr> \<noteq> 0 \<and>
    rounded \<lparr>c0 = 0, c1 = 1, c2 = 2, precision = 12\<rparr> \<and>
    extreme \<lparr>c0 = 0, c1 = 1, c2 = 2, precision = 12\<rparr> = Some (- (1 / 4))) \<and>
   (c2 \<lparr>c0 = 5, c1 = 3, c2 = 0, precision = 12\<rparr> = 0 \<and>
    extreme \<lparr>c0 = 5, c1 = 3, c2 = 0, precision = 12\<rparr> = None)"
proof -
  have r: "rounded \<lparr>c0 = 0, c1 = 1, c2 = 2, precision = 12\<rparr>"
    by (simp add: rounded_def round_util_default)
  have "extreme \<lparr>c0 = 0, c1 = 1, c2 = 2, precision = 12\<rparr> =
          Some (round_util (- 1 / (2 * 2)) 12)"
    using r extreme_cases [of "\<lparr>c0 = 0, c1 = 1, c2 = 2, precision = 12\<rparr>"] by simp
  then have e: "extreme \<lparr>c0 = 0, c1 = 1, c2 = 2, precision = 12\<rparr> = Some (- (1 / 4))"
    by (simp add: round_util_default)
  have n: "extreme \<lparr>c0 = 5, c1 = 3, c2 = 0, precision = 12\<rparr> = None"
    using extreme_cases [of "\<lparr>c0 = 5, c1 = 3, c2 = 0, precision = 12\<rparr>"] by simp
  show ?thesis using r e n by simp
qed

text \<open>
  The claim as it was stated gives \<open>0\<close> to a polynomial with \<open>c2 = 0\<close> and \<open>c1 \<noteq> 0\<close>. For
  the line \<open>x\<close> the code answers \<^verbatim>\<open>null\<close>.
\<close>

theorem extreme_linear_is_null:
  "c2 \<lparr>c0 = 0, c1 = 1, c2 = 0, precision = 12\<rparr> = 0 \<and>
   c1 \<lparr>c0 = 0, c1 = 1, c2 = 0, precision = 12\<rparr> \<noteq> 0 \<and>
   extreme \<lparr>c0 = 0, c1 = 1, c2 = 0, precision = 12\<rparr> = None \<and>
   extreme \<lparr>c0 = 0, c1 = 1, c2 = 0, precision = 12\<rparr> \<noteq> Some 0"
  by (simp add: extreme_def derivative_def make_linear_def solveInverse_linear_def
        round_util_default)

section \<open>Monotonicity of a quadratic\<close>

text \<open>
  C4. \<^verbatim>\<open>monotonicity(p, i)\<close> goes through these cases in order: constant when
  \<open>c1 = c2 = 0\<close>; the monotonicity of the line \<open>c0 + c1 x\<close> when \<open>c2 = 0\<close> (increasing or
  decreasing by the sign of \<open>c1\<close>); constant when the interval has size 0; none when there
  is no interval or the extreme lies strictly inside it; and otherwise increasing, decreasing
  or constant as the value at the end of the interval is larger than, smaller than or equal
  to the value at its start.
\<close>

theorem monotonicity_cases:
  "(c2 p = 0 \<and> c1 p = 0 \<longrightarrow> monotonicity p i = Constant) \<and>
   (c2 p = 0 \<and> c1 p \<noteq> 0 \<longrightarrow>
      monotonicity p i = monotonicity_linear (make_linear (c0 p) (c1 p) (precision p))) \<and>
   (c2 p = 0 \<and> rounded p \<longrightarrow>
      monotonicity p i =
        (if 0 < c1 p then Increasing else if c1 p < 0 then Decreasing else Constant)) \<and>
   (c2 p \<noteq> 0 \<longrightarrow> (\<exists>e. extreme p = Some e)) \<and>
   (c2 p \<noteq> 0 \<and> i = None \<longrightarrow> monotonicity p i = MNone) \<and>
   (\<forall>iv e. c2 p \<noteq> 0 \<and> i = Some iv \<and> extreme p = Some e \<longrightarrow>
      (size_interval iv = 0 \<longrightarrow> monotonicity p i = Constant) \<and>
      (size_interval iv \<noteq> 0 \<and> Interval.start iv < e \<and> e < Interval.end iv \<longrightarrow>
         monotonicity p i = MNone) \<and>
      (size_interval iv \<noteq> 0 \<and> \<not> (Interval.start iv < e \<and> e < Interval.end iv) \<longrightarrow>
         (solve p (Interval.start iv) < solve p (Interval.end iv) \<longrightarrow>
            monotonicity p i = Increasing) \<and>
         (solve p (Interval.end iv) < solve p (Interval.start iv) \<longrightarrow>
            monotonicity p i = Decreasing) \<and>
         (solve p (Interval.end iv) = solve p (Interval.start iv) \<longrightarrow>
            monotonicity p i = Constant)))"
proof (intro conjI allI impI)
  show "c2 p = 0 \<and> c1 p = 0 \<Longrightarrow> monotonicity p i = Constant"
    by (simp add: monotonicity_def)
  show "c2 p = 0 \<and> c1 p \<noteq> 0 \<Longrightarrow>
      monotonicity p i = monotonicity_linear (make_linear (c0 p) (c1 p) (precision p))"
    by (simp add: monotonicity_def)
  show "c2 p = 0 \<and> rounded p \<Longrightarrow>
      monotonicity p i =
        (if 0 < c1 p then Increasing else if c1 p < 0 then Decreasing else Constant)"
    by (auto simp: monotonicity_def monotonicity_linear_def make_linear_def rounded_def)
  show "c2 p \<noteq> 0 \<Longrightarrow> \<exists>e. extreme p = Some e"
    by (rule extreme_defined)
  show "c2 p \<noteq> 0 \<and> i = None \<Longrightarrow> monotonicity p i = MNone"
    by (simp add: monotonicity_def)
next
  fix iv e
  assume a: "c2 p \<noteq> 0 \<and> i = Some iv \<and> extreme p = Some e"
  show "size_interval iv = 0 \<Longrightarrow> monotonicity p i = Constant"
    using a by (simp add: monotonicity_def)
  show "size_interval iv \<noteq> 0 \<and> Interval.start iv < e \<and> e < Interval.end iv \<Longrightarrow>
      monotonicity p i = MNone"
    using a by (simp add: monotonicity_def contains_def)
  assume b: "size_interval iv \<noteq> 0 \<and> \<not> (Interval.start iv < e \<and> e < Interval.end iv)"
  have m: "monotonicity p i =
      guaranteedMonotonicityFromComparison (solve p (Interval.start iv)) (solve p (Interval.end iv))"
    using a b by (auto simp: monotonicity_def contains_def)
  show "solve p (Interval.start iv) < solve p (Interval.end iv) \<Longrightarrow>
      monotonicity p i = Increasing"
    by (simp add: m guaranteedMonotonicityFromComparison_def)
  show "solve p (Interval.end iv) < solve p (Interval.start iv) \<Longrightarrow>
      monotonicity p i = Decreasing"
    by (simp add: m guaranteedMonotonicityFromComparison_def)
  show "solve p (Interval.end iv) = solve p (Interval.start iv) \<Longrightarrow>
      monotonicity p i = Constant"
    by (simp add: m guaranteedMonotonicityFromComparison_def)
qed

text \<open>The monotonicity tests of \<^verbatim>\<open>polynomial.spec.ts\<close>, and a pair of values that rounding
  makes equal.\<close>

theorem monotonicity_cases_witness:
  "monotonicity \<lparr>c0 = 0, c1 = 0, c2 = 0, precision = 12\<rparr> None = Constant \<and>
   monotonicity \<lparr>c0 = 0, c1 = 1, c2 = 0, precision = 12\<rparr> None = Increasing \<and>
   monotonicity \<lparr>c0 = 0, c1 = - 1, c2 = 0, precision = 12\<rparr> None = Decreasing \<and>
   monotonicity \<lparr>c0 = 0, c1 = 1, c2 = 2, precision = 12\<rparr> None = MNone \<and>
   monotonicity \<lparr>c0 = 0, c1 = 1, c2 = 2, precision = 12\<rparr>
     (Some \<lparr>start = - (1 / 4), end = - (1 / 4), precision = 12\<rparr>) = Constant \<and>
   monotonicity \<lparr>c0 = 0, c1 = 1, c2 = 2, precision = 12\<rparr>
     (Some \<lparr>start = - 2, end = 1, precision = 12\<rparr>) = MNone \<and>
   monotonicity \<lparr>c0 = 0, c1 = 1, c2 = 2, precision = 12\<rparr>
     (Some \<lparr>start = 0, end = 1, precision = 12\<rparr>) = Increasing \<and>
   monotonicity \<lparr>c0 = 0, c1 = 1, c2 = 2, precision = 12\<rparr>
     (Some \<lparr>start = - 2, end = - (1 / 4), precision = 12\<rparr>) = Decreasing \<and>
   monotonicity \<lparr>c0 = 0, c1 = 0, c2 = 1, precision = 0\<rparr>
     (Some \<lparr>start = 1 / 10, end = 2 / 10, precision = 0\<rparr>) = Constant"
proof -
  let ?z = "\<lparr>c0 = 0, c1 = 0, c2 = 0, precision = 12\<rparr>"
  let ?u = "\<lparr>c0 = 0, c1 = 1, c2 = 0, precision = 12\<rparr>"
  let ?d = "\<lparr>c0 = 0, c1 = - 1, c2 = 0, precision = 12\<rparr>"
  let ?q = "\<lparr>c0 = 0, c1 = 1, c2 = 2, precision = 12\<rparr>"
  let ?s = "\<lparr>c0 = 0, c1 = 0, c2 = 1, precision = 0\<rparr>"
  have 1: "monotonicity ?z None = Constant"
    using monotonicity_cases [of ?z None] by simp
  have 2: "monotonicity ?u None = Increasing"
    using monotonicity_cases [of ?u None]
    by (simp add: rounded_def round_util_default monotonicity_linear_def make_linear_def)
  have 3: "monotonicity ?d None = Decreasing"
    using monotonicity_cases [of ?d None]
    by (simp add: rounded_def round_util_default monotonicity_linear_def make_linear_def)
  have 4: "monotonicity ?q None = MNone"
    using monotonicity_cases [of ?q None] by simp
  have 5: "monotonicity ?q (Some \<lparr>start = - (1 / 4), end = - (1 / 4), precision = 12\<rparr>) = Constant"
    using monotonicity_cases [of ?q "Some \<lparr>start = - (1 / 4), end = - (1 / 4), precision = 12\<rparr>"]
    by (simp add: extreme_example size_interval_def)
  have 6: "monotonicity ?q (Some \<lparr>start = - 2, end = 1, precision = 12\<rparr>) = MNone"
    using monotonicity_cases [of ?q "Some \<lparr>start = - 2, end = 1, precision = 12\<rparr>"]
    by (simp add: extreme_example size_interval_def)
  have 7: "monotonicity ?q (Some \<lparr>start = 0, end = 1, precision = 12\<rparr>) = Increasing"
    using monotonicity_cases [of ?q "Some \<lparr>start = 0, end = 1, precision = 12\<rparr>"]
    by (simp add: extreme_example size_interval_def solve_def round_util_default)
  have 8: "monotonicity ?q (Some \<lparr>start = - 2, end = - (1 / 4), precision = 12\<rparr>) = Decreasing"
    using monotonicity_cases [of ?q "Some \<lparr>start = - 2, end = - (1 / 4), precision = 12\<rparr>"]
    by (simp add: extreme_example size_interval_def solve_def round_util_default
          power2_eq_square)
  have 9: "monotonicity ?s (Some \<lparr>start = 1 / 10, end = 2 / 10, precision = 0\<rparr>) = Constant"
    using monotonicity_cases [of ?s "Some \<lparr>start = 1 / 10, end = 2 / 10, precision = 0\<rparr>"]
    by (simp add: extreme_example_square size_interval_def solve_def round_util_def
          PRECISION_MAX_def power2_eq_square)
  from 1 2 3 4 5 6 7 8 9 show ?thesis by blast
qed

section \<open>Solving a linear system\<close>

lemma solveSystem_singular_iff:
  "solveSystem m v = Inl SingularMatrix \<longleftrightarrow> determinant m = 0"
  by (simp add: solveSystem_def divide_number_def)

lemmas matrix_defs =
  determinant_def minor_def toColumns_def toRows_def toSpliced_def components_def
  vector4_def make_matrix3x3_def determinant_matrix3x3_def setRow_def fromRows_def
  Matrix4x4Impl_def PRECISION_def dot_def vectorProductLeft_def round_util_default

text \<open>
  \<^verbatim>\<open>determinant\<close> multiplies the entries of the first row with the minors of the first
  column: on the invertible matrix below, whose determinant is 1, it returns 0, and
  \<^verbatim>\<open>solveSystem\<close> reports a singular matrix.
\<close>

lemma determinant_example_unit_upper:
  "determinant
     \<lparr>m00 = 1, m01 = 1, m02 = 0, m03 = 0,
      m10 = 0, m11 = 1, m12 = 0, m13 = 0,
      m20 = 0, m21 = 0, m22 = 1, m23 = 0,
      m30 = 0, m31 = 0, m32 = 0, m33 = 1, precision = 12\<rparr> = 0"
  by (simp add: matrix_defs)

text \<open>
  On the identity matrix every system has its right-hand side as the solution; for
  \<open>v = (1,2,3,4)\<close> \<^verbatim>\<open>solveSystem\<close> returns \<open>(-28,2,3,4)\<close>.
\<close>

lemma solveSystem_example_identity:
  "solveSystem
     \<lparr>m00 = 1, m01 = 0, m02 = 0, m03 = 0,
      m10 = 0, m11 = 1, m12 = 0, m13 = 0,
      m20 = 0, m21 = 0, m22 = 1, m23 = 0,
      m30 = 0, m31 = 0, m32 = 0, m33 = 1, precision = 12\<rparr>
     \<lparr>v0 = 1, v1 = 2, v2 = 3, v3 = 4, precision = 12\<rparr>
   = Inr \<lparr>v0 = - 28, v1 = 2, v2 = 3, v3 = 4, precision = 12\<rparr>"
  by (simp add: solveSystem_def divide_number_def matrix_defs)

text \<open>
  C5. The claim is that \<^verbatim>\<open>solveSystem(M, v)\<close>, when it does not fail, returns the \<open>x\<close>
  with \<open>M \<cdot> x = v\<close>. The code replaces the rows of \<open>M\<close> by \<open>v\<close> where Cramer's rule replaces
  the columns. For the matrix with the rows \<open>(1,0,0,0)\<close>, \<open>(1,1,0,0)\<close>, \<open>(0,0,1,0)\<close>,
  \<open>(0,0,0,1)\<close> and \<open>v = (1,0,0,0)\<close> it returns \<open>x = (1,0,0,0)\<close>, for which \<open>M \<cdot> x\<close> is
  \<open>(1,1,0,0)\<close>; the solution of the system is \<open>(1,-1,0,0)\<close>.
\<close>

theorem solveSystem_not_solution:
  "solveSystem
     \<lparr>m00 = 1, m01 = 0, m02 = 0, m03 = 0,
      m10 = 1, m11 = 1, m12 = 0, m13 = 0,
      m20 = 0, m21 = 0, m22 = 1, m23 = 0,
      m30 = 0, m31 = 0, m32 = 0, m33 = 1, precision = 12\<rparr>
     \<lparr>v0 = 1, v1 = 0, v2 = 0, v3 = 0, precision = 12\<rparr>
   = Inr \<lparr>v0 = 1, v1 = 0, v2 = 0, v3 = 0, precision = 12\<rparr> \<and>
   vectorProductLeft
     \<lparr>m00 = 1, m01 = 0, m02 = 0, m03 = 0,
      m10 = 1, m11 = 1, m12 = 0, m13 = 0,
      m20 = 0, m21 = 0, m22 = 1, m23 = 0,
      m30 = 0, m31 = 0, m32 = 0, m33 = 1, precision = 12\<rparr>
     \<lparr>v0 = 1, v1 = 0, v2 = 0, v3 = 0, precision = 12\<rparr>
   = \<lparr>v0 = 1, v1 = 1, v2 = 0, v3 = 0, precision = 12\<rparr> \<and>
   vectorProductLeft
     \<lparr>m00 = 1, m01 = 0, m02 = 0, m03 = 0,
      m10 = 1, m11 = 1, m12 = 0, m13 = 0,
      m20 = 0, m21 = 0, m22 = 1, m23 = 0,
      m30 = 0, m31 = 0, m32 = 0, m33 = 1, precision = 12\<rparr>
     \<lparr>v0 = 1, v1 = - 1, v2 = 0, v3 = 0, precision = 12\<rparr>
   = \<lparr>v0 = 1, v1 = 0, v2 = 0, v3 = 0, precision = 12\<rparr>"
  by (simp add: solveSystem_def divide_number_def matrix_defs)

section \<open>Properties of the chunking\<close>

lemma windows_stop:
  "stride = 0 \<or> length seq < i + 4 \<Longrightarrow> windows seq stride i = []"
  by (subst windows.simps) simp

lemma windows_step:
  "0 < stride \<Longrightarrow> i + 4 \<le> length seq \<Longrightarrow>
   windows seq stride i = take 4 (drop i seq) # windows seq stride (i + stride)"
  by (subst windows.simps) simp

lemma windows_length:
  "0 < stride \<Longrightarrow> i + 4 \<le> length seq \<Longrightarrow>
   length (windows seq stride i) = (length seq - 4 - i) div stride + 1"
proof (induction seq stride i rule: windows.induct)
  case (1 seq stride i)
  have step: "windows seq stride i = take 4 (drop i seq) # windows seq stride (i + stride)"
    using 1(2,3) by (rule windows_step)
  show ?case
  proof (cases "i + stride + 4 \<le> length seq")
    case True
    have "length (windows seq stride (i + stride)) =
        (length seq - 4 - (i + stride)) div stride + 1"
      using 1(1) 1(2,3) True by simp
    moreover have "(length seq - 4 - i) div stride = (length seq - 4 - (i + stride)) div stride + 1"
    proof -
      define a where "a = length seq - 4 - (i + stride)"
      have "length seq - 4 - i = a + stride"
        unfolding a_def using True by linarith
      moreover have "(a + stride) div stride = a div stride + 1"
        using 1(2) by simp
      ultimately show ?thesis
        unfolding a_def by presburger
    qed
    ultimately show ?thesis by (simp add: step)
  next
    case False
    then have "windows seq stride (i + stride) = []"
      by (simp add: windows_stop)
    moreover have "(length seq - 4 - i) div stride = 0"
      using False 1(2,3) by simp
    ultimately show ?thesis by (simp add: step)
  qed
qed

lemma windows_nth:
  "0 < stride \<Longrightarrow> k < length (windows seq stride i) \<Longrightarrow>
   windows seq stride i ! k = take 4 (drop (i + k * stride) seq)"
proof (induction seq stride i arbitrary: k rule: windows.induct)
  case (1 seq stride i)
  have ok: "\<not> (stride = 0 \<or> length seq < i + 4)"
  proof
    assume "stride = 0 \<or> length seq < i + 4"
    then have "windows seq stride i = []" by (rule windows_stop)
    with 1(3) show False by simp
  qed
  then have step: "windows seq stride i = take 4 (drop i seq) # windows seq stride (i + stride)"
    by (simp add: windows_step)
  show ?case
  proof (cases k)
    case 0
    then show ?thesis by (simp add: step)
  next
    case (Suc j)
    then have j: "j < length (windows seq stride (i + stride))"
      using 1(3) by (simp add: step)
    have "windows seq stride (i + stride) ! j = take 4 (drop (i + stride + j * stride) seq)"
      using 1(1) [OF ok 1(2) j] .
    moreover have "i + stride + j * stride = i + k * stride"
      using Suc by simp
    ultimately show ?thesis using Suc by (simp add: step)
  qed
qed

lemma take4_drop:
  assumes "n + 4 \<le> length xs"
  shows "take 4 (drop n xs) = [xs ! n, xs ! (n + 1), xs ! (n + 2), xs ! (n + 3)]"
proof -
  have a: "drop n xs = xs ! n # drop (Suc n) xs"
    using assms by (simp add: Cons_nth_drop_Suc)
  have b: "drop (Suc n) xs = xs ! Suc n # drop (Suc (Suc n)) xs"
    using assms by (simp add: Cons_nth_drop_Suc)
  have c: "drop (Suc (Suc n)) xs = xs ! Suc (Suc n) # drop (Suc (Suc (Suc n))) xs"
    using assms by (simp add: Cons_nth_drop_Suc)
  have d: "drop (Suc (Suc (Suc n))) xs =
      xs ! Suc (Suc (Suc n)) # drop (Suc (Suc (Suc (Suc n)))) xs"
    using assms by (simp add: Cons_nth_drop_Suc)
  have "take 4 (drop n xs) = [xs ! n, xs ! Suc n, xs ! Suc (Suc n), xs ! Suc (Suc (Suc n))]"
    by (simp only: a b c d) simp
  then show ?thesis
    by (simp add: numeral_3_eq_3)
qed

text \<open>The tests of \<^verbatim>\<open>toCubicScalars\<close> and \<^verbatim>\<open>toBezierSegments\<close> hold of the model.\<close>

lemma toCubicScalars_tests:
  "toCubicScalars [0, 0, 0 :: int] 1 = Inl InvalidChunking"
  "toCubicScalars [0, 1, 2, 3, 4 :: int] 2 = Inl InvalidChunking"
  "toCubicScalars [0, 1, 2, 3, 4 :: int] 3 = Inl InvalidChunking"
  "toCubicScalars [0, 1, 2, 3, 4 :: int] 0 = Inl InvalidChunking"
  "toCubicScalars [0, 1, 2, 3, 4 :: int] 4 = Inl InvalidChunking"
  "toCubicScalars [0, 1, 2, 3, 4 :: int] 1 = Inr [[0, 1, 2, 3], [1, 2, 3, 4]]"
  "toCubicScalars [0, 1, 2, 3, 4, 5 :: int] 2 = Inr [[0, 1, 2, 3], [2, 3, 4, 5]]"
  "toCubicScalars [0, 1, 2, 3, 4, 5, 6 :: int] 3 = Inr [[0, 1, 2, 3], [3, 4, 5, 6]]"
  by (simp_all add: toCubicScalars_def windows.simps)

lemma toBezierSegments_tests:
  "toBezierSegments [0, 1, 2, 3 :: int] = Inr [[0, 1, 2, 3]]"
  "toBezierSegments [0, 1, 2, 3, 4, 5, 6, 7, 8, 9 :: int] =
     Inr [[0, 1, 2, 3], [3, 4, 5, 6], [6, 7, 8, 9]]"
  "toBezierSegments [0, 1, 2, 3, 4 :: int] = Inl InvalidChunking"
  by (simp_all add: toBezierSegments_def toCubicScalars_def windows.simps)

text \<open>
  C6. \<^verbatim>\<open>toCubicScalars(seq, stride)\<close> fails with InvalidChunking exactly when the
  sequence has fewer than 4 elements, or the stride is not 1, 2 or 3, or \<open>length - 4\<close> is
  not a multiple of the stride. Otherwise it returns \<open>(length - 4) / stride + 1\<close> windows,
  the \<open>k\<close>-th being the four elements from index \<open>k * stride\<close> on. The Bezier segments of
  \<open>[0,1,2,3,4,5,6]\<close> are \<open>[[0,1,2,3],[3,4,5,6]]\<close>.
\<close>

theorem toCubicScalars_spec:
  "(toCubicScalars seq stride = Inl InvalidChunking \<longleftrightarrow>
      length seq < 4 \<or> stride \<notin> {1, 2, 3} \<or> (length seq - 4) mod stride \<noteq> 0) \<and>
   (\<not> (length seq < 4 \<or> stride \<notin> {1, 2, 3} \<or> (length seq - 4) mod stride \<noteq> 0) \<longrightarrow>
      (\<exists>ws. toCubicScalars seq stride = Inr ws \<and>
            length ws = (length seq - 4) div stride + 1 \<and>
            (\<forall>k < length ws.
               ws ! k = [seq ! (k * stride), seq ! (k * stride + 1),
                         seq ! (k * stride + 2), seq ! (k * stride + 3)]))) \<and>
   toBezierSegments [0, 1, 2, 3, 4, 5, 6 :: int] = Inr [[0, 1, 2, 3], [3, 4, 5, 6]]"
proof (intro conjI impI)
  show "toCubicScalars seq stride = Inl InvalidChunking \<longleftrightarrow>
      length seq < 4 \<or> stride \<notin> {1, 2, 3} \<or> (length seq - 4) mod stride \<noteq> 0"
    by (simp add: toCubicScalars_def)
  show "toBezierSegments [0, 1, 2, 3, 4, 5, 6 :: int] = Inr [[0, 1, 2, 3], [3, 4, 5, 6]]"
    by (simp add: toBezierSegments_def toCubicScalars_def windows.simps)
next
  assume ok: "\<not> (length seq < 4 \<or> stride \<notin> {1, 2, 3} \<or> (length seq - 4) mod stride \<noteq> 0)"
  then have s: "0 < stride" and n: "4 \<le> length seq"
    by auto
  let ?ws = "windows seq stride 0"
  have r: "toCubicScalars seq stride = Inr ?ws"
    using ok by (simp add: toCubicScalars_def)
  have l: "length ?ws = (length seq - 4) div stride + 1"
    using windows_length [OF s, of 0 seq] n by simp
  have "\<forall>k < length ?ws.
      ?ws ! k = [seq ! (k * stride), seq ! (k * stride + 1),
                 seq ! (k * stride + 2), seq ! (k * stride + 3)]"
  proof (intro allI impI)
    fix k
    assume k: "k < length ?ws"
    then have "k \<le> (length seq - 4) div stride"
      using l by simp
    then have "k * stride \<le> (length seq - 4) div stride * stride"
      by (rule mult_le_mono1)
    also have "\<dots> \<le> length seq - 4"
      by (rule div_times_less_eq_dividend)
    finally have "k * stride + 4 \<le> length seq"
      using n by simp
    then have "take 4 (drop (k * stride) seq) =
        [seq ! (k * stride), seq ! (k * stride + 1), seq ! (k * stride + 2), seq ! (k * stride + 3)]"
      by (rule take4_drop)
    then show "?ws ! k = [seq ! (k * stride), seq ! (k * stride + 1),
                 seq ! (k * stride + 2), seq ! (k * stride + 3)]"
      using windows_nth [OF s k] by simp
  qed
  with r l show "\<exists>ws. toCubicScalars seq stride = Inr ws \<and>
            length ws = (length seq - 4) div stride + 1 \<and>
            (\<forall>k < length ws.
               ws ! k = [seq ! (k * stride), seq ! (k * stride + 1),
                         seq ! (k * stride + 2), seq ! (k * stride + 3)])"
    by blast
qed

theorem toCubicScalars_spec_witness:
  "toCubicScalars [0, 1, 2, 3, 4, 5 :: int] 2 = Inr [[0, 1, 2, 3], [2, 3, 4, 5]] \<and>
   toCubicScalars [0, 1, 2, 3, 4 :: int] 2 = Inl InvalidChunking"
proof -
  obtain ws where ws: "toCubicScalars [0, 1, 2, 3, 4, 5 :: int] 2 = Inr ws"
    "length ws = 2" "\<forall>k < length ws.
       ws ! k = [[0, 1, 2, 3, 4, 5] ! (k * 2), [0, 1, 2, 3, 4, 5] ! (k * 2 + 1),
                 [0, 1, 2, 3, 4, 5] ! (k * 2 + 2), [0, 1, 2, 3, 4, 5] ! (k * 2 + 3)]"
    using toCubicScalars_spec [of "[0, 1, 2, 3, 4, 5 :: int]" 2] by auto
  have "ws ! 0 = [0, 1, 2, 3]" "ws ! 1 = [2, 3, 4, 5]"
    using ws(2,3) by simp_all
  then have "ws = [[0, 1, 2, 3], [2, 3, 4, 5]]"
    using ws(2) by (auto simp: list_eq_iff_nth_eq less_Suc_eq numeral_2_eq_2)
  moreover have "toCubicScalars [0, 1, 2, 3, 4 :: int] 2 = Inl InvalidChunking"
    using toCubicScalars_spec [of "[0, 1, 2, 3, 4 :: int]" 2] by simp
  ultimately show ?thesis using ws(1) by simp
qed

section \<open>The cardinal matrix\<close>

text \<open>
  The rows are in the order of the coefficients: the cubic \<open>c0 + c1 t + c2 t\<^sup>2 + c3 t\<^sup>3\<close>
  that the matrix gives for the controls \<open>p0\<close> to \<open>p3\<close> starts at \<open>p1\<close> with the slope
  \<open>a (p2 - p0)\<close> and ends at \<open>p2\<close> with the slope \<open>a (p3 - p1)\<close>.
\<close>

lemma cardinal_interpolates:
  assumes "coefficients (cardinal a) [p0, p1, p2, p3] = [k0, k1, k2, k3]"
  shows "k0 = p1"
    and "k0 + k1 + k2 + k3 = p2"
    and "k1 = a * (p2 - p0)"
    and "k1 + 2 * k2 + 3 * k3 = a * (p3 - p1)"
proof -
  have k: "k0 = p1" "k1 = - a * p0 + a * p2"
    "k2 = 2 * a * p0 + (a - 3) * p1 + (3 - 2 * a) * p2 - a * p3"
    "k3 = - a * p0 + (2 - a) * p1 + (a - 2) * p2 + a * p3"
  proof -
    have "coefficients (cardinal a) [p0, p1, p2, p3] =
        [p1, - a * p0 + a * p2,
         2 * a * p0 + (a - 3) * p1 + (3 - 2 * a) * p2 - a * p3,
         - a * p0 + (2 - a) * p1 + (a - 2) * p2 + a * p3]"
      by (simp add: coefficients_def cardinal_def)
    with assms have "[k0, k1, k2, k3] =
        [p1, - a * p0 + a * p2,
         2 * a * p0 + (a - 3) * p1 + (3 - 2 * a) * p2 - a * p3,
         - a * p0 + (2 - a) * p1 + (a - 2) * p2 + a * p3]"
      by (rule trans [OF sym])
    then show "k0 = p1" "k1 = - a * p0 + a * p2"
      "k2 = 2 * a * p0 + (a - 3) * p1 + (3 - 2 * a) * p2 - a * p3"
      "k3 = - a * p0 + (2 - a) * p1 + (a - 2) * p2 + a * p3"
      by blast+
  qed
  show "k0 = p1" by (rule k(1))
  show "k0 + k1 + k2 + k3 = p2" by (simp add: k algebra_simps)
  show "k1 = a * (p2 - p0)" by (simp add: k algebra_simps)
  show "k1 + 2 * k2 + 3 * k3 = a * (p3 - p1)" by (simp add: k algebra_simps)
qed


section \<open>Solving a curve on one axis\<close>

lemma fold_axes:
  "fold (\<lambda>key result. if key \<noteq> axis then result(key \<mapsto> g key) else result) keys m k =
     (if k \<in> set keys \<and> k \<noteq> axis then Some (g k) else m k)"
  by (induction keys arbitrary: m) auto

text \<open>
  C8. \<^verbatim>\<open>solveWhere(axis, position)\<close> fails with NonMonotonicAxis exactly when the
  monotonicity of the chosen axis is none. On a monotonic axis it fails with RootUnsolvable
  when the axis finds no parameter for the position, and otherwise it takes the first
  parameter \<open>t\<close> found and returns the point that has the rounded position on the chosen
  axis and, on every other axis, the rounded value of that axis at \<open>t\<close>.
\<close>

theorem solveWhere_spec:
  "(solveWhere c axis position prec = Inl NonMonotonicAxis \<longleftrightarrow>
      CurveAxis.monotonicity (axes c axis) = MNone) \<and>
   (CurveAxis.monotonicity (axes c axis) \<noteq> MNone \<and>
    solveT (axes c axis) position (domain (axes c axis)) = [] \<longrightarrow>
      solveWhere c axis position prec = Inl RootUnsolvable) \<and>
   (\<forall>t ts. CurveAxis.monotonicity (axes c axis) \<noteq> MNone \<and>
      solveT (axes c axis) position (domain (axes c axis)) = t # ts \<longrightarrow>
      (\<exists>point. solveWhere c axis position prec = Inr point \<and>
         point axis = Some (round_number position prec) \<and>
         (\<forall>key. key \<in> set (axisKeys c) \<and> key \<noteq> axis \<longrightarrow>
            point key = Some (round_number (solvePosition (axes c key) t) prec)) \<and>
         dom point = insert axis (set (axisKeys c))))"
proof (intro conjI allI impI)
  show "solveWhere c axis position prec = Inl NonMonotonicAxis \<longleftrightarrow>
      CurveAxis.monotonicity (axes c axis) = MNone"
    by (simp add: solveWhere_def Let_def split: list.splits)
  show "CurveAxis.monotonicity (axes c axis) \<noteq> MNone \<and>
    solveT (axes c axis) position (domain (axes c axis)) = [] \<Longrightarrow>
      solveWhere c axis position prec = Inl RootUnsolvable"
    by (simp add: solveWhere_def)
next
  fix t ts
  assume a: "CurveAxis.monotonicity (axes c axis) \<noteq> MNone \<and>
      solveT (axes c axis) position (domain (axes c axis)) = t # ts"
  let ?g = "\<lambda>key. round_number (solvePosition (axes c key) t) prec"
  let ?point = "fold (\<lambda>key result. if key \<noteq> axis then result(key \<mapsto> ?g key) else result)
      (axisKeys c) [axis \<mapsto> round_number position prec]"
  have r: "solveWhere c axis position prec = Inr ?point"
    using a by (simp add: solveWhere_def)
  have p: "\<And>k. ?point k =
      (if k \<in> set (axisKeys c) \<and> k \<noteq> axis then Some (?g k)
       else [axis \<mapsto> round_number position prec] k)"
    by (rule fold_axes)
  have 1: "?point axis = Some (round_number position prec)"
    by (simp add: p)
  have 2: "\<forall>key. key \<in> set (axisKeys c) \<and> key \<noteq> axis \<longrightarrow> ?point key = Some (?g key)"
    by (simp add: p)
  have 3: "dom ?point = insert axis (set (axisKeys c))"
    by (auto simp: p dom_def split: if_splits)
  from r 1 2 3 show "\<exists>point. solveWhere c axis position prec = Inr point \<and>
         point axis = Some (round_number position prec) \<and>
         (\<forall>key. key \<in> set (axisKeys c) \<and> key \<noteq> axis \<longrightarrow>
            point key = Some (round_number (solvePosition (axes c key) t) prec)) \<and>
         dom point = insert axis (set (axisKeys c))"
    by blast
qed

text \<open>
  A curve with the axes \<open>x\<close>, \<open>y\<close> and \<open>z\<close>: \<open>x\<close> is increasing and finds the parameter
  \<open>1/2\<close> for every position, \<open>y\<close> is not monotonic, \<open>z\<close> is increasing and finds no
  parameter.
\<close>

theorem solveWhere_spec_witness:
  "(\<exists>point.
      solveWhere
        \<lparr>axisKeys = [''x'', ''y'', ''z''],
         axes = (\<lambda>key.
           if key = ''x'' then
             \<lparr>CurveAxis.monotonicity = Increasing, domain = \<lparr>start = 0, end = 1, precision = 12\<rparr>,
              solveT = (\<lambda>position d. [Num (1 / 2)]), solvePosition = (\<lambda>t. Num 1)\<rparr>
           else if key = ''y'' then
             \<lparr>CurveAxis.monotonicity = MNone, domain = \<lparr>start = 0, end = 1, precision = 12\<rparr>,
              solveT = (\<lambda>position d. []), solvePosition = (\<lambda>t. Num 2)\<rparr>
           else
             \<lparr>CurveAxis.monotonicity = Increasing, domain = \<lparr>start = 0, end = 1, precision = 12\<rparr>,
              solveT = (\<lambda>position d. []), solvePosition = (\<lambda>t. Num 3)\<rparr>)\<rparr>
        ''x'' (Num 1) 12 = Inr point \<and>
      point ''x'' = Some (Num 1) \<and> point ''y'' = Some (Num 2) \<and> point ''z'' = Some (Num 3)) \<and>
   solveWhere
     \<lparr>axisKeys = [''x'', ''y'', ''z''],
      axes = (\<lambda>key.
        if key = ''x'' then
          \<lparr>CurveAxis.monotonicity = Increasing, domain = \<lparr>start = 0, end = 1, precision = 12\<rparr>,
           solveT = (\<lambda>position d. [Num (1 / 2)]), solvePosition = (\<lambda>t. Num 1)\<rparr>
        else if key = ''y'' then
          \<lparr>CurveAxis.monotonicity = MNone, domain = \<lparr>start = 0, end = 1, precision = 12\<rparr>,
           solveT = (\<lambda>position d. []), solvePosition = (\<lambda>t. Num 2)\<rparr>
        else
          \<lparr>CurveAxis.monotonicity = Increasing, domain = \<lparr>start = 0, end = 1, precision = 12\<rparr>,
           solveT = (\<lambda>position d. []), solvePosition = (\<lambda>t. Num 3)\<rparr>)\<rparr>
     ''y'' (Num 1) 12 = Inl NonMonotonicAxis \<and>
   solveWhere
     \<lparr>axisKeys = [''x'', ''y'', ''z''],
      axes = (\<lambda>key.
        if key = ''x'' then
          \<lparr>CurveAxis.monotonicity = Increasing, domain = \<lparr>start = 0, end = 1, precision = 12\<rparr>,
           solveT = (\<lambda>position d. [Num (1 / 2)]), solvePosition = (\<lambda>t. Num 1)\<rparr>
        else if key = ''y'' then
          \<lparr>CurveAxis.monotonicity = MNone, domain = \<lparr>start = 0, end = 1, precision = 12\<rparr>,
           solveT = (\<lambda>position d. []), solvePosition = (\<lambda>t. Num 2)\<rparr>
        else
          \<lparr>CurveAxis.monotonicity = Increasing, domain = \<lparr>start = 0, end = 1, precision = 12\<rparr>,
           solveT = (\<lambda>position d. []), solvePosition = (\<lambda>t. Num 3)\<rparr>)\<rparr>
     ''z'' (Num 1) 12 = Inl RootUnsolvable"
proof -
  let ?c = "\<lparr>axisKeys = [''x'', ''y'', ''z''],
      axes = (\<lambda>key.
        if key = ''x'' then
          \<lparr>CurveAxis.monotonicity = Increasing, domain = \<lparr>start = 0, end = 1, precision = 12\<rparr>,
           solveT = (\<lambda>position d. [Num (1 / 2)]), solvePosition = (\<lambda>t. Num 1)\<rparr>
        else if key = ''y'' then
          \<lparr>CurveAxis.monotonicity = MNone, domain = \<lparr>start = 0, end = 1, precision = 12\<rparr>,
           solveT = (\<lambda>position d. []), solvePosition = (\<lambda>t. Num 2)\<rparr>
        else
          \<lparr>CurveAxis.monotonicity = Increasing, domain = \<lparr>start = 0, end = 1, precision = 12\<rparr>,
           solveT = (\<lambda>position d. []), solvePosition = (\<lambda>t. Num 3)\<rparr>)\<rparr>"
  have m: "CurveAxis.monotonicity (axes ?c ''x'') \<noteq> MNone \<and>
      solveT (axes ?c ''x'') (Num 1) (domain (axes ?c ''x'')) = [Num (1 / 2)]"
    by simp
  obtain point where point: "solveWhere ?c ''x'' (Num 1) 12 = Inr point"
    "point ''x'' = Some (round_number (Num 1) 12)"
    "\<forall>key. key \<in> set (axisKeys ?c) \<and> key \<noteq> ''x'' \<longrightarrow>
       point key = Some (round_number (solvePosition (axes ?c key) (Num (1 / 2))) 12)"
    using solveWhere_spec [of ?c "''x''" "Num 1" 12, THEN conjunct2, THEN conjunct2,
        THEN spec, THEN spec, THEN mp, OF m]
    by blast
  have "point ''x'' = Some (Num 1)"
    using point(2) by (simp add: round_util_default)
  moreover have "point ''y'' = Some (Num 2)"
    using point(3) [THEN spec, of "''y''"] by (simp add: round_util_default)
  moreover have "point ''z'' = Some (Num 3)"
    using point(3) [THEN spec, of "''z''"] by (simp add: round_util_default)
  ultimately have x: "\<exists>point. solveWhere ?c ''x'' (Num 1) 12 = Inr point \<and>
      point ''x'' = Some (Num 1) \<and> point ''y'' = Some (Num 2) \<and> point ''z'' = Some (Num 3)"
    using point(1) by blast
  have y: "solveWhere ?c ''y'' (Num 1) 12 = Inl NonMonotonicAxis"
    using solveWhere_spec [of ?c "''y''" "Num 1" 12] by simp
  have z: "solveWhere ?c ''z'' (Num 1) 12 = Inl RootUnsolvable"
    using solveWhere_spec [of ?c "''z''" "Num 1" 12] by simp
  from x y z show ?thesis by blast
qed

section \<open>The matrix type guard\<close>

text \<open>
  C9. \<^verbatim>\<open>isMatrix4x4(v)\<close> is true exactly when \<^verbatim>\<open>typeof v\<close> is \<^verbatim>\<open>'object'\<close>: for
  \<^verbatim>\<open>null\<close> and for every object, whatever its fields, also one with no field at all,
  and for no other value. No type tag and no field is looked at.
\<close>

theorem isMatrix4x4_spec:
  "isMatrix4x4 v = (typeof v = ''object'') \<and>
   isMatrix4x4 v = (v = Null \<or> (\<exists>properties. v = Object properties)) \<and>
   isMatrix4x4 Null \<and>
   isMatrix4x4 (Object []) \<and>
   isMatrix4x4 (Object properties) \<and>
   \<not> isMatrix4x4 Undefined \<and>
   \<not> isMatrix4x4 (Boolean b) \<and>
   \<not> isMatrix4x4 (Number n) \<and>
   \<not> isMatrix4x4 (BigInt k) \<and>
   \<not> isMatrix4x4 (String s) \<and>
   \<not> isMatrix4x4 (Symbol s) \<and>
   \<not> isMatrix4x4 (Function f)"
  by (cases v) (simp_all add: isMatrix4x4_def)

theorem isMatrix4x4_spec_witness:
  "isMatrix4x4 (Object [(''start'', Number (Num 0)), (''end'', Number (Num 1))]) \<and>
   \<not> isMatrix4x4 (Number (Num 1))"
  using isMatrix4x4_spec [of "Object [(''start'', Number (Num 0)), (''end'', Number (Num 1))]"]
    isMatrix4x4_spec [of "Number (Num 1)"]
  by simp

end
